theory Spec2Isabelle
  imports Complex_Main "HOL-Library.Log_Nat"
begin

section \<open>The MTrader data feed (backtradermql5/mt5data.py)\<close>

text \<open>
  A shallow embedding of the class \<open>MTraderData\<close>: the finite state machine of \<open>_load\<close>, the
  two bar builders \<open>_load_tick\<close> and \<open>_load_candle\<close>, \<open>_st_start\<close> and \<open>haslivedata\<close>.
  The feed object is a record that every method takes and returns; an exception is a value
  of type \<open>abort\<close>; the \<open>while True\<close> loop of \<open>_load\<close> is a partial function whose value
  \<open>None\<close> means that the call never returns.
\<close>

subsection \<open>Numbers\<close>

text \<open>
  A finite Python float is the rational number that it denotes, and the three special
  values that the code meets are kept apart (\<open>float("-inf")\<close>, \<open>float("inf")\<close>, and the NaN
  that fills a fresh slot of a line buffer).  Comparisons with NaN are false, as in Python.
\<close>

datatype pyfloat = NaN | NegInf | PosInf | Fin rat

fun fle :: "pyfloat \<Rightarrow> pyfloat \<Rightarrow> bool" where
  "fle (Fin a) (Fin b) = (a \<le> b)"
| "fle (Fin a) PosInf = True"
| "fle (Fin a) NegInf = False"
| "fle NegInf (Fin b) = True"
| "fle NegInf NegInf = True"
| "fle NegInf PosInf = True"
| "fle PosInf PosInf = True"
| "fle PosInf (Fin b) = False"
| "fle PosInf NegInf = False"
| "fle NaN y = False"
| "fle x NaN = False"

fun flt :: "pyfloat \<Rightarrow> pyfloat \<Rightarrow> bool" where
  "flt (Fin a) (Fin b) = (a < b)"
| "flt (Fin a) PosInf = True"
| "flt (Fin a) NegInf = False"
| "flt NegInf (Fin b) = True"
| "flt NegInf NegInf = False"
| "flt NegInf PosInf = True"
| "flt PosInf y = False"
| "flt NaN y = False"
| "flt x NaN = False"

text \<open>\<open>int(s)\<close> on a number: truncation towards zero.\<close>

definition py_int :: "rat \<Rightarrow> int" where
  "py_int x = (if 0 \<le> x then \<lfloor>x\<rfloor> else \<lceil>x\<rceil>)"

text \<open>
  Arithmetic on floats is that of binary doubles: every operation gives the double nearest
  to the exact result, a tie going to the even significand.  \<open>binexp q\<close> is the binary
  exponent of a positive \<open>q\<close> (the \<open>e\<close> with \<open>2 ^ e \<le> q < 2 ^ (e + 1)\<close>), and a double with
  that exponent is a whole multiple of \<open>2 ^ (e - 52)\<close>.  Overflow and subnormal numbers
  are left out: prices and spreads are far from both.
\<close>

definition round_half_even :: "rat \<Rightarrow> int" where
  "round_half_even y =
     (let f = \<lfloor>y\<rfloor>; r = y - of_int f
      in if r < 1 / 2 then f else if 1 / 2 < r then f + 1 else if even f then f else f + 1)"

definition pow2 :: "int \<Rightarrow> rat" where
  "pow2 e = (if 0 \<le> e then 2 ^ nat e else 1 / 2 ^ nat (- e))"

definition binexp :: "rat \<Rightarrow> int" where
  "binexp q = (if 1 \<le> q then bitlen \<lfloor>q\<rfloor> - 1 else - bitlen (\<lceil>1 / q\<rceil> - 1))"

definition to_double :: "rat \<Rightarrow> rat" where
  "to_double x =
     (if x = 0 then 0
      else (let u = pow2 (binexp \<bar>x\<bar> - 52)
            in of_int (round_half_even (x / u)) * u))"

text \<open>
  \<open>float(x)\<close> and a float literal: the double nearest to the number written.  \<open>a + b\<close> and
  \<open>a * b\<close> on floats.  \<open>sum(xs)\<close> adds from the left, starting from 0.
\<close>

definition py_float :: "rat \<Rightarrow> rat" where
  "py_float x = to_double x"

definition fadd :: "rat \<Rightarrow> rat \<Rightarrow> rat" where
  "fadd a b = to_double (a + b)"

definition fmul :: "rat \<Rightarrow> rat \<Rightarrow> rat" where
  "fmul a b = to_double (a * b)"

definition py_sum :: "rat list \<Rightarrow> rat" where
  "py_sum xs = foldl fadd 0 xs"

text \<open>
  \<open>round(x, n)\<close> of Python 3 on a float: the exact value of \<open>x\<close> is rounded to \<open>n\<close> decimals,
  a tie going to the even neighbour, and the result is the double nearest to that decimal
  number.
\<close>

definition py_round :: "rat \<Rightarrow> nat \<Rightarrow> rat" where
  "py_round x n = to_double (of_int (round_half_even (x * 10 ^ n)) / 10 ^ n)"

text \<open>\<open>s.endswith(suf)\<close>.\<close>

definition endswith :: "string \<Rightarrow> string \<Rightarrow> bool" where
  "endswith s suf = (length suf \<le> length s \<and> drop (length s - length suf) s = suf)"

subsection \<open>Data\<close>

text \<open>The states of the machine: \<open>_ST_FROM, _ST_START, _ST_LIVE, _ST_HISTORBACK, _ST_OVER\<close>.\<close>

datatype fstate = ST_FROM | ST_START | ST_LIVE | ST_HISTORBACK | ST_OVER

datatype notification = DELAYED | CONNECTED | DISCONNECTED | LIVE

text \<open>What \<open>_load\<close> returns: \<open>True\<close> (a bar is loaded), \<open>None\<close> (nothing yet), \<open>False\<close> (over).\<close>

datatype retval = PyTrue | PyNone | PyFalse

text \<open>
  The exceptions that leave \<open>_load\<close>: a key missing from a message, a payload that does not
  unpack into the expected number of values, the receive timeout of the SUB socket
  (\<open>RCVTIMEO\<close> is set in \<open>__init__\<close>; pyzmq raises \<open>zmq.Again\<close> when it expires), and
  \<open>backfill_from.next()\<close> without a backfill feed.
\<close>

datatype abort = KeyError string | ValueError | ZmqAgain | AttributeError

text \<open>One bar: the slot of index 0 of the seven lines of the feed.\<close>

record bar =
  l_datetime :: pyfloat
  l_open :: pyfloat
  l_high :: pyfloat
  l_low :: pyfloat
  l_close :: pyfloat
  l_volume :: pyfloat
  l_openinterest :: pyfloat

text \<open>
  A live message is a JSON object; the code reads the keys \<open>status\<close>, \<open>timeframe\<close>, \<open>symbol\<close>
  and \<open>data\<close>.  A field is \<open>None\<close> when the key is absent, and reading it raises \<open>KeyError\<close>.
  The payload under \<open>data\<close> is a list of numbers.
\<close>

record live_msg =
  status :: "string option"
  timeframe :: "string option"
  symbol :: "string option"
  data :: "rat list option"

text \<open>\<open>if msg:\<close> for a dictionary: it has at least one key.\<close>

definition msg_truthy :: "live_msg \<Rightarrow> bool" where
  "msg_truthy m =
     (status m \<noteq> None \<or> timeframe m \<noteq> None \<or> symbol m \<noteq> None \<or> data m \<noteq> None)"

text \<open>
  The feed.  First the parameters and the attribute \<open>subscribe\<close> (\<open>None\<close> is Python's
  \<open>None\<close>); then what the feed takes from its collaborators: the label
  \<open>self.o.get_granularity(timeframe, compression)\<close>, the conversion
  \<open>date2num(datetime.fromtimestamp(t))\<close> of an epoch time in seconds, and the answer
  \<open>self.o.price_data(...)\<close> of the store to a request for the range between two dates (the
  messages that the returned queue will hand over); then the mutable attributes.

  A historical message is \<open>None\<close> (Python's \<open>None\<close>), \<open>Some []\<close> (a value that is false but
  not \<open>None\<close>, the end of the historical data) or \<open>Some\<close> of a payload.

  The line buffer is seen as \<open>_load\<close> sees it: the host has moved it forward, so there is a
  current slot \<open>cur\<close> (index 0) after the bars delivered so far, \<open>hist\<close> (the last one has
  index -1).  \<open>qlive\<close> holds the live messages that are ready to be received, \<open>backfill_from\<close>
  the bars that the external feed has yet to deliver.
\<close>

record feed =
  subscribe :: "string option"
  p_dataname :: string
  p_timeframe :: int
  p_compression :: int
  p_historical :: bool
  p_backfill :: bool
  p_include_last :: bool
  p_useask :: bool
  p_addspread :: bool
  granularity :: string
  ts2num :: "rat \<Rightarrow> rat"
  price_data :: "pyfloat option \<Rightarrow> pyfloat option \<Rightarrow> rat list option list"
  backfill_from :: "bar list option"
  state :: fstate
  statelivereconn :: bool
  fromdate :: pyfloat
  todate :: pyfloat
  qlive :: "live_msg list"
  qhist :: "rat list option list"
  historyback_queue_size :: nat
  notifs :: "notification list"
  requests :: "(pyfloat option \<times> pyfloat option) list"
  hist :: "bar list"
  cur :: bar

subsection \<open>Small methods\<close>

definition put_notification :: "notification \<Rightarrow> feed \<Rightarrow> feed" where
  "put_notification n s = s\<lparr>notifs := notifs s @ [n]\<rparr>"

text \<open>
  \<open>self.lines.datetime[-1]\<close>: the datetime of the last delivered bar.  With no delivered bar
  the buffer has one slot and the index -1 wraps around to it.
\<close>

definition lines_datetime_m1 :: "feed \<Rightarrow> pyfloat" where
  "lines_datetime_m1 s = (if hist s = [] then l_datetime (cur s) else l_datetime (last (hist s)))"

text \<open>\<open>len(self)\<close>: the slots of the buffer, the current one included.\<close>

definition len_self :: "feed \<Rightarrow> nat" where
  "len_self s = length (hist s) + 1"

text \<open>
  \<open>start\<close> binds \<open>self.qlive\<close> to the queue of the store for 'DATA', to the socket for
  'SUB' and to \<open>None\<close> otherwise; a queue and a socket are true objects.
\<close>

definition qlive_bound :: "feed \<Rightarrow> bool" where
  "qlive_bound s = (subscribe s = Some ''DATA'' \<or> subscribe s = Some ''SUB'')"

definition haslivedata :: "feed \<Rightarrow> bool" where
  "haslivedata s =
     (case subscribe s of
        None \<Rightarrow> False
      | Some x \<Rightarrow> if x = [] then False else qlive_bound s)"

definition st_start :: "feed \<Rightarrow> feed" where
  "st_start s =
     (let s1 = put_notification DELAYED s;
          date_begin = (if flt NegInf (fromdate s1) then Some (fromdate s1) else None);
          date_end = (if flt (todate s1) PosInf then Some (todate s1) else None)
      in s1\<lparr>qhist := price_data s1 date_begin date_end,
            requests := requests s1 @ [(date_begin, date_end)],
            state := ST_HISTORBACK\<rparr>)"

subsection \<open>The bar builders\<close>

definition load_tick :: "feed \<Rightarrow> rat list \<Rightarrow> abort + bool \<times> feed" where
  "load_tick s d =
     (case d of
        [time_stamp, bid, ask] \<Rightarrow>
          (let dt = Fin (ts2num s (time_stamp / 1000)) in
           if fle dt (lines_datetime_m1 s) then Inr (False, s)
           else
             (let tick = Fin (if p_useask s then ask else bid) in
              Inr (True, s\<lparr>cur := (cur s)\<lparr>l_datetime := dt, l_volume := Fin 0,
                     l_openinterest := Fin 0, l_open := tick, l_high := tick,
                     l_low := tick, l_close := tick\<rparr>\<rparr>)))
      | _ \<Rightarrow> Inl ValueError)"

text \<open>
  The inner function of \<open>_load_candle\<close>:
  \<open>round(sum([float(p), int(s) * 0.001]), 3)\<close> for a JPY pair and
  \<open>round(sum([float(p), int(s) * 0.00001]), 5)\<close> otherwise; the product of an integer and a
  float is the product of floats.
\<close>

definition addspread :: "feed \<Rightarrow> rat \<Rightarrow> rat \<Rightarrow> rat" where
  "addspread s p sp =
     (if endswith (p_dataname s) ''JPY''
      then py_round
             (py_sum [py_float p, fmul (py_float (of_int (py_int sp))) (py_float (1 / 1000))]) 3
      else py_round
             (py_sum [py_float p, fmul (py_float (of_int (py_int sp))) (py_float (1 / 100000))])
             5)"

definition load_candle :: "feed \<Rightarrow> rat list \<Rightarrow> abort + bool \<times> feed" where
  "load_candle s d =
     (case d of
        [time_stamp, opn, hgh, lw, cls, vol, spread] \<Rightarrow>
          (let dt = Fin (ts2num s time_stamp) in
           if fle dt (lines_datetime_m1 s) then Inr (False, s)
           else
             Inr (True, s\<lparr>cur := (cur s)\<lparr>l_datetime := dt,
                    l_open := Fin (if \<not> p_addspread s then opn else addspread s opn spread),
                    l_high := Fin (if \<not> p_addspread s then hgh else addspread s hgh spread),
                    l_low := Fin (if \<not> p_addspread s then lw else addspread s lw spread),
                    l_close := Fin (if \<not> p_addspread s then cls else addspread s cls spread),
                    l_volume := Fin vol,
                    l_openinterest := Fin 0\<rparr>\<rparr>))
      | _ \<Rightarrow> Inl ValueError)"

subsection \<open>One turn of the loop of \<open>_load\<close>\<close>

text \<open>
  A turn continues the loop, returns, raises, or waits: \<open>get()\<close> with its default arguments
  on a queue that holds nothing blocks until something is put, and within one call nothing
  is: the call does not come back.
\<close>

datatype turn = Continue feed | Return retval feed | Raise abort | Wait

text \<open>What a bar builder's answer does to the loop in the LIVE state and for candles.\<close>

definition built :: "abort + bool \<times> feed \<Rightarrow> turn" where
  "built r =
     (case r of
        Inl e \<Rightarrow> Raise e
      | Inr (ok, s') \<Rightarrow> if ok then Return PyTrue s' else Continue s')"

text \<open>The body of \<open>if msg:\<close> in the LIVE state.\<close>

definition live_msg_turn :: "feed \<Rightarrow> live_msg \<Rightarrow> turn" where
  "live_msg_turn s m =
     (case status m of
        None \<Rightarrow> Raise (KeyError ''status'')
      | Some st \<Rightarrow>
          if st = ''DISCONNECTED'' then
            (let s1 = put_notification DISCONNECTED s;
                 s2 = (if \<not> p_backfill s1 then s1\<lparr>state := ST_OVER\<rparr> else s1)
             in Continue (s2\<lparr>statelivereconn := True\<rparr>))
          else if st = ''CONNECTED'' \<and> statelivereconn s then
            (let s1 = (put_notification CONNECTED s)\<lparr>statelivereconn := False\<rparr>;
                 s2 = (if 1 < len_self s1 then s1\<lparr>fromdate := lines_datetime_m1 s1\<rparr> else s1)
             in Continue (st_start s2))
          else
            (case timeframe m of
               None \<Rightarrow> Raise (KeyError ''timeframe'')
             | Some tf \<Rightarrow>
                 if tf \<noteq> granularity s then Continue s
                 else
                   (case symbol m of
                      None \<Rightarrow> Raise (KeyError ''symbol'')
                    | Some smb \<Rightarrow>
                        if smb \<noteq> p_dataname s then Continue s
                        else
                          (case data m of
                             None \<Rightarrow> Raise (KeyError ''data'')
                           | Some d \<Rightarrow>
                               if tf = ''TICK'' then built (load_tick s d)
                               else built (load_candle s d)))))"

text \<open>
  The LIVE state.  For 'DATA' the message comes from \<open>self.qlive.get()\<close>, a blocking
  \<open>get\<close>: on a queue that holds nothing it waits and never raises the \<open>queue.Empty\<close> that
  the handler around it would turn into \<open>return None\<close>.  For 'SUB' it comes from the socket,
  whose receive has a timeout and no handler around it.  Otherwise \<open>msg = None\<close>.
\<close>

definition live_turn :: "feed \<Rightarrow> turn" where
  "live_turn s =
     (if subscribe s = Some ''DATA'' then
        (case qlive s of
           [] \<Rightarrow> Wait
         | m # ms \<Rightarrow>
             if msg_truthy m then live_msg_turn (s\<lparr>qlive := ms\<rparr>) m
             else Continue (s\<lparr>qlive := ms\<rparr>))
      else if subscribe s = Some ''SUB'' then
        (case qlive s of
           [] \<Rightarrow> Raise ZmqAgain
         | m # ms \<Rightarrow>
             if msg_truthy m then live_msg_turn (s\<lparr>qlive := ms\<rparr>) m
             else Continue (s\<lparr>qlive := ms\<rparr>))
      else Continue s)"

text \<open>
  The HISTORBACK state.  \<open>self.qhist.get()\<close> is a blocking \<open>get\<close> as well.  After a tick that
  is not loaded, control leaves the \<open>if\<close> chain and reaches the lines after it (the switch
  to LIVE); after a candle that is not loaded there is a \<open>continue\<close>.
\<close>

definition go_live :: "feed \<Rightarrow> turn" where
  "go_live s = Continue (put_notification LIVE (s\<lparr>state := ST_LIVE\<rparr>))"

definition historback_turn :: "feed \<Rightarrow> turn" where
  "historback_turn s =
     (case qhist s of
        [] \<Rightarrow> Wait
      | msg # ms \<Rightarrow>
          (let s1 = s\<lparr>qhist := ms, historyback_queue_size := length ms\<rparr> in
           case msg of
             None \<Rightarrow> Return PyFalse ((put_notification DISCONNECTED s1)\<lparr>state := ST_OVER\<rparr>)
           | Some d \<Rightarrow>
               if d \<noteq> [] \<and> p_timeframe s1 = 1 then
                 (case load_tick s1 d of
                    Inl e \<Rightarrow> Raise e
                  | Inr (ok, s2) \<Rightarrow> if ok then Return PyTrue s2 else go_live s2)
               else if d \<noteq> [] then built (load_candle s1 d)
               else if p_historical s1 then
                 Return PyFalse ((put_notification DISCONNECTED s1)\<lparr>state := ST_OVER\<rparr>)
               else go_live s1))"

text \<open>The FROM state: the bar of the external feed is copied line by line.\<close>

definition from_turn :: "feed \<Rightarrow> turn" where
  "from_turn s =
     (case backfill_from s of
        None \<Rightarrow> Raise AttributeError
      | Some [] \<Rightarrow> Continue (s\<lparr>state := ST_START\<rparr>)
      | Some (b # bs) \<Rightarrow> Return PyTrue (s\<lparr>backfill_from := Some bs, cur := b\<rparr>))"

definition load_turn :: "feed \<Rightarrow> turn" where
  "load_turn s =
     (case state s of
        ST_LIVE \<Rightarrow> live_turn s
      | ST_HISTORBACK \<Rightarrow> historback_turn s
      | ST_FROM \<Rightarrow> from_turn s
      | ST_START \<Rightarrow> Continue (st_start s)
      | ST_OVER \<Rightarrow> Continue s)"

subsection \<open>\<open>_load\<close>\<close>

partial_function (option) load_loop :: "feed \<Rightarrow> (abort + retval \<times> feed) option" where
  "load_loop s =
     (case load_turn s of
        Continue s' \<Rightarrow> load_loop s'
      | Return r s' \<Rightarrow> Some (Inr (r, s'))
      | Raise e \<Rightarrow> Some (Inl e)
      | Wait \<Rightarrow> None)"

definition load :: "feed \<Rightarrow> (abort + retval \<times> feed) option" where
  "load s =
     (if state s = ST_OVER then Some (Inr (PyFalse, s))
      else if state s = ST_LIVE \<and> \<not> haslivedata s then Some (Inr (PyFalse, s))
      else load_loop s)"

subsection \<open>Concrete feeds\<close>

text \<open>
  The conversion for a server in UTC: day 719163 is 1 January 1970, and a day has 86400
  seconds.
\<close>

definition epoch_days :: "rat \<Rightarrow> rat" where
  "epoch_days t = 719163 + t / 86400"

text \<open>A slot as the host leaves it when it moves the buffer forward.\<close>

definition nan_bar :: bar where
  "nan_bar = \<lparr>l_datetime = NaN, l_open = NaN, l_high = NaN, l_low = NaN, l_close = NaN,
     l_volume = NaN, l_openinterest = NaN\<rparr>"

definition flat_bar :: "rat \<Rightarrow> rat \<Rightarrow> bar" where
  "flat_bar d p = \<lparr>l_datetime = Fin d, l_open = Fin p, l_high = Fin p, l_low = Fin p,
     l_close = Fin p, l_volume = Fin 0, l_openinterest = Fin 0\<rparr>"

text \<open>
  A feed of one-minute EURUSD candles with the default parameters, in the LIVE state, with
  nothing delivered and nothing waiting.
\<close>

definition eurusd_feed :: feed where
  "eurusd_feed = \<lparr>subscribe = Some ''DATA'', p_dataname = ''EURUSD'', p_timeframe = 4,
     p_compression = 1, p_historical = False, p_backfill = True, p_include_last = False,
     p_useask = False, p_addspread = False, granularity = ''M1'', ts2num = epoch_days,
     price_data = (\<lambda>b e. [Some []]), backfill_from = None, state = ST_LIVE,
     statelivereconn = False, fromdate = NegInf, todate = PosInf, qlive = [], qhist = [],
     historyback_queue_size = 0, notifs = [], requests = [], hist = [], cur = nan_bar\<rparr>"

text \<open>Messages: the two status events without data, and a data message.\<close>

definition status_msg :: "string \<Rightarrow> live_msg" where
  "status_msg st = \<lparr>status = Some st, timeframe = None, symbol = None, data = None\<rparr>"

definition data_msg :: "string \<Rightarrow> string \<Rightarrow> rat list \<Rightarrow> live_msg" where
  "data_msg tf smb d =
     \<lparr>status = Some ''CONNECTED'', timeframe = Some tf, symbol = Some smb, data = Some d\<rparr>"

section \<open>Properties\<close>

subsection \<open>Doubles\<close>

text \<open>
  The binary exponent is the right one, rounding to the nearest whole number stays within
  one half and breaks a tie towards the even side, and a double is its own nearest double.
\<close>

lemma pow2_powi: "pow2 e = 2 powi e"
  by (simp add: pow2_def power_int_def power_inverse inverse_eq_divide power_one_over)

lemma pow2_pos: "0 < pow2 e"
  by (simp add: pow2_def)

lemma pow2_add: "pow2 (a + b) = pow2 a * pow2 b"
  by (simp add: pow2_powi power_int_add)

lemma pow2_less: "a < b \<Longrightarrow> pow2 a < pow2 b"
  by (simp add: pow2_powi power_int_strict_increasing)

lemma pow2_of_int: "0 \<le> e \<Longrightarrow> pow2 e = of_int (2 ^ nat e)"
  by (simp add: pow2_def)

lemma binexp_bounds:
  assumes "0 < q"
  shows "pow2 (binexp q) \<le> q \<and> q < pow2 (binexp q + 1)"
proof (cases "1 \<le> q")
  case True
  define n where "n = \<lfloor>q\<rfloor>"
  define b where "b = bitlen n"
  from True have n1: "1 \<le> n" by (simp add: n_def)
  then have "0 < n" by simp
  from bitlen_bounds[OF this] have lo: "2 ^ nat (b - 1) \<le> n" and hi: "n < 2 ^ nat b"
    by (simp_all add: b_def)
  from hi n1 have b1: "1 \<le> b" by (cases "b \<le> 0") auto
  have e: "binexp q = b - 1" using True by (simp add: binexp_def n_def b_def)
  have "pow2 (b - 1) = of_int (2 ^ nat (b - 1))" using b1 by (simp add: pow2_of_int)
  also have "\<dots> \<le> of_int n" using lo by (simp only: of_int_le_iff)
  also have "\<dots> \<le> q" by (simp add: n_def)
  finally have A: "pow2 (b - 1) \<le> q" .
  have "q < of_int (n + 1)" unfolding n_def by linarith
  also have "\<dots> \<le> of_int (2 ^ nat b)" using hi by (simp only: of_int_le_iff; simp)
  also have "\<dots> = pow2 b" using b1 by (simp add: pow2_of_int)
  finally have B: "q < pow2 (b - 1 + 1)" by simp
  from A B e show ?thesis by simp
next
  case False
  define c where "c = \<lceil>1 / q\<rceil>"
  define d where "d = c - 1"
  define b where "b = bitlen d"
  from False assms have r1: "1 < 1 / q" by (simp add: field_simps)
  have cr: "1 / q \<le> of_int c" by (simp add: c_def)
  have dr: "of_int d < 1 / q" unfolding d_def c_def by linarith
  from r1 cr have "1 < (of_int c :: rat)" by linarith
  then have "1 < c" by simp
  then have d1: "0 < d" by (simp add: d_def)
  from bitlen_bounds[OF this] have lo: "2 ^ nat (b - 1) \<le> d" and hi: "d < 2 ^ nat b"
    by (simp_all add: b_def)
  from hi d1 have b1: "1 \<le> b" by (cases "b \<le> 0") auto
  have e: "binexp q = - b" using False by (simp add: binexp_def c_def d_def b_def)
  have "1 / q \<le> of_int (d + 1)" using cr by (simp add: d_def)
  also have "\<dots> \<le> of_int (2 ^ nat b)" using hi by (simp only: of_int_le_iff; simp)
  finally have "1 / q \<le> 2 ^ nat b" by simp
  with assms have "1 / 2 ^ nat b \<le> q" by (simp add: field_simps)
  then have A: "pow2 (- b) \<le> q" using b1 by (simp add: pow2_def)
  have "(2::rat) ^ nat (b - 1) = of_int (2 ^ nat (b - 1))" by simp
  also have "\<dots> \<le> of_int d" using lo by (simp only: of_int_le_iff)
  also have "\<dots> < 1 / q" by (rule dr)
  finally have "(2::rat) ^ nat (b - 1) < 1 / q" .
  with assms have "q < 1 / 2 ^ nat (b - 1)" by (simp add: field_simps)
  moreover have "pow2 (- b + 1) = 1 / 2 ^ nat (b - 1)"
    using b1 by (cases "b = 1") (simp_all add: pow2_def)
  ultimately have B: "q < pow2 (- b + 1)" by simp
  from A B e show ?thesis by simp
qed

lemma binexp_unique:
  assumes "0 < q" and "pow2 a \<le> q" and "q < pow2 (a + 1)"
  shows "binexp q = a"
proof -
  from binexp_bounds[OF assms(1)]
  have lo: "pow2 (binexp q) \<le> q" and hi: "q < pow2 (binexp q + 1)" by simp_all
  have "\<not> a + 1 \<le> binexp q"
  proof
    assume "a + 1 \<le> binexp q"
    then have "pow2 (a + 1) \<le> pow2 (binexp q)"
      using pow2_less[of "a + 1" "binexp q"] by (cases "a + 1 = binexp q") auto
    with lo assms(3) show False by linarith
  qed
  moreover have "\<not> binexp q + 1 \<le> a"
  proof
    assume "binexp q + 1 \<le> a"
    then have "pow2 (binexp q + 1) \<le> pow2 a"
      using pow2_less[of "binexp q + 1" a] by (cases "binexp q + 1 = a") auto
    with hi assms(2) show False by linarith
  qed
  ultimately show ?thesis by linarith
qed

lemma round_half_even_of_int: "round_half_even (of_int m) = m"
  by (simp add: round_half_even_def)

lemma round_half_even_near: "\<bar>of_int (round_half_even y) - y\<bar> \<le> 1 / 2"
proof -
  have "of_int \<lfloor>y\<rfloor> \<le> y" "y < of_int \<lfloor>y\<rfloor> + 1" by linarith+
  then show ?thesis by (auto simp: round_half_even_def Let_def)
qed

lemma round_half_even_tie:
  assumes "\<bar>of_int (round_half_even y) - y\<bar> = 1 / 2"
  shows "even (round_half_even y)"
proof -
  have "of_int \<lfloor>y\<rfloor> \<le> y" "y < of_int \<lfloor>y\<rfloor> + 1" by linarith+
  with assms show ?thesis
    by (auto simp: round_half_even_def Let_def split: if_splits)
qed

lemma to_double_idem: "to_double (to_double x) = to_double x"
proof (cases "x = 0")
  case True
  then show ?thesis by (simp add: to_double_def)
next
  case False
  define e where "e = binexp \<bar>x\<bar>"
  define u where "u = pow2 (e - 52)"
  define m where "m = round_half_even (x / u)"
  define y where "y = of_int m * u"
  have u0: "0 < u" by (simp add: u_def pow2_pos)
  have td: "to_double x = y"
    using False by (simp add: to_double_def Let_def e_def u_def m_def y_def)
  from False binexp_bounds[of "\<bar>x\<bar>"]
  have lo: "pow2 e \<le> \<bar>x\<bar>" and hi: "\<bar>x\<bar> < pow2 (e + 1)" by (simp_all add: e_def)
  have "pow2 e = pow2 (52 + (e - 52))" by (rule arg_cong[of _ _ pow2]) simp
  also have "\<dots> = pow2 52 * u" unfolding u_def by (rule pow2_add)
  finally have pe: "pow2 e = 2 ^ 52 * u" by (simp add: pow2_def)
  have "pow2 (e + 1) = pow2 (53 + (e - 52))" by (rule arg_cong[of _ _ pow2]) simp
  also have "\<dots> = pow2 53 * u" unfolding u_def by (rule pow2_add)
  finally have pe1: "pow2 (e + 1) = 2 ^ 53 * u" by (simp add: pow2_def)
  have "pow2 (e + 1 + 1) = pow2 (54 + (e - 52))" by (rule arg_cong[of _ _ pow2]) simp
  also have "\<dots> = pow2 54 * u" unfolding u_def by (rule pow2_add)
  finally have pe2: "pow2 (e + 1 + 1) = 2 ^ 54 * u" by (simp add: pow2_def)
  have "pow2 (e - 51) = pow2 (1 + (e - 52))" by (rule arg_cong[of _ _ pow2]) simp
  also have "\<dots> = pow2 1 * u" unfolding u_def by (rule pow2_add)
  finally have u2: "pow2 (e - 51) = 2 * u" by (simp add: pow2_def)
  have ax: "\<bar>x / u\<bar> = \<bar>x\<bar> / u" using u0 by simp
  from lo pe u0 have xlo: "2 ^ 52 \<le> \<bar>x / u\<bar>" unfolding ax by (simp add: field_simps)
  from hi pe1 u0 have xhi: "\<bar>x / u\<bar> < 2 ^ 53" unfolding ax by (simp add: field_simps)
  have near: "\<bar>of_int m - x / u\<bar> \<le> 1 / 2" unfolding m_def by (rule round_half_even_near)
  from xlo near have "(2::rat) ^ 52 - 1 < \<bar>of_int m\<bar>" by linarith
  then have "(of_int (2 ^ 52 - 1) :: rat) < of_int \<bar>m\<bar>" by simp
  then have mlo: "2 ^ 52 \<le> \<bar>m\<bar>" by (simp only: of_int_less_iff; simp)
  from xhi near have "\<bar>of_int m\<bar> < (2::rat) ^ 53 + 1" by linarith
  then have "(of_int \<bar>m\<bar> :: rat) < of_int (2 ^ 53 + 1)" by simp
  then have mhi: "\<bar>m\<bar> \<le> 2 ^ 53" by (simp only: of_int_less_iff; simp)
  from mlo have m0: "m \<noteq> 0" by auto
  with u0 have y0: "y \<noteq> 0" by (simp add: y_def)
  have ay: "\<bar>y\<bar> = of_int \<bar>m\<bar> * u" using u0 by (simp add: y_def abs_mult)
  have yu: "y / u = of_int m" using u0 by (simp add: y_def)
  show ?thesis
  proof (cases "\<bar>m\<bar> < 2 ^ 53")
    case True
    from mlo have "(of_int (2 ^ 52) :: rat) \<le> of_int \<bar>m\<bar>" by (simp only: of_int_le_iff)
    with u0 have a: "pow2 e \<le> \<bar>y\<bar>" unfolding pe ay by simp
    from True have "(of_int \<bar>m\<bar> :: rat) < of_int (2 ^ 53)" by (simp only: of_int_less_iff)
    with u0 have b: "\<bar>y\<bar> < pow2 (e + 1)" unfolding pe1 ay by simp
    from y0 have "0 < \<bar>y\<bar>" by simp
    from binexp_unique[OF this a b] have "binexp \<bar>y\<bar> = e" .
    with y0 have "to_double y = of_int (round_half_even (y / u)) * u"
      by (simp add: to_double_def Let_def u_def)
    then have "to_double y = y" by (simp add: yu round_half_even_of_int y_def)
    with td show ?thesis by simp
  next
    case False
    with mhi have mm: "\<bar>m\<bar> = 2 ^ 53" by simp
    then have a: "pow2 (e + 1) \<le> \<bar>y\<bar>" unfolding pe1 ay by simp
    from mm u0 have b: "\<bar>y\<bar> < pow2 (e + 1 + 1)" unfolding pe2 ay by simp
    from y0 have "0 < \<bar>y\<bar>" by simp
    from binexp_unique[OF this a b] have "binexp \<bar>y\<bar> = e + 1" .
    with y0 have t: "to_double y = of_int (round_half_even (y / (2 * u))) * (2 * u)"
      by (simp add: to_double_def Let_def u2)
    from mm have "even \<bar>m\<bar>" by simp
    then have "even m" by simp
    then obtain k where k: "m = 2 * k" by (elim evenE)
    have "y / (2 * u) = of_int k" using u0 by (simp add: y_def k)
    with t have "to_double y = of_int k * (2 * u)" by (simp add: round_half_even_of_int)
    also have "\<dots> = y" by (simp add: y_def k)
    finally show ?thesis using td by simp
  qed
qed

text \<open>
  Decimal ties are decided on the exact value of the double, as Python does:
  \<open>round(2.675, 2)\<close> is 2.67, \<open>round(1.000005, 5)\<close> is 1.00001, \<open>round(110.0015, 3)\<close> is
  110.001 and \<open>round(0.125, 2)\<close> is 0.12.
\<close>

lemma py_round_examples:
  "py_round (py_float (2675 / 1000)) 2 = py_float (267 / 100)"
  "py_round (py_float (1000005 / 1000000)) 5 = py_float (100001 / 100000)"
  "py_round (py_float (1100015 / 10000)) 3 = py_float (110001 / 1000)"
  "py_round (py_float (125 / 1000)) 2 = py_float (12 / 100)"
  "py_float (267 / 100) = 1503076375634903 / 562949953421312"
  "py_float (1 / 1000) = 1152921504606847 / 1152921504606846976"
  by code_simp+

lemma fadd_zero_float: "fadd 0 (py_float p) = py_float p"
  by (simp add: fadd_def py_float_def to_double_idem)

lemma py_round_nearest:
  "\<exists>j. py_round x n = py_float (of_int j / 10 ^ n)
     \<and> \<bar>of_int j / 10 ^ n - x\<bar> \<le> 1 / (2 * 10 ^ n)
     \<and> (\<bar>of_int j / 10 ^ n - x\<bar> = 1 / (2 * 10 ^ n) \<longrightarrow> even j)"
proof -
  define j where "j = round_half_even (x * 10 ^ n)"
  have p: "(0::rat) < 10 ^ n" by simp
  have d: "\<bar>of_int j / 10 ^ n - x\<bar> = \<bar>of_int j - x * 10 ^ n\<bar> / 10 ^ n"
  proof -
    have "of_int j / 10 ^ n - x = (of_int j - x * 10 ^ n) / 10 ^ n"
      by (simp add: field_simps)
    then show ?thesis by (simp add: abs_divide)
  qed
  have a: "py_round x n = py_float (of_int j / 10 ^ n)"
    by (simp add: py_round_def py_float_def j_def)
  have "\<bar>of_int j - x * 10 ^ n\<bar> \<le> 1 / 2"
    unfolding j_def by (rule round_half_even_near)
  then have b: "\<bar>of_int j / 10 ^ n - x\<bar> \<le> 1 / (2 * 10 ^ n)"
    unfolding d using p by (simp add: field_simps)
  have c: "even j" if "\<bar>of_int j / 10 ^ n - x\<bar> = 1 / (2 * 10 ^ n)"
  proof -
    from that have "\<bar>of_int j - x * 10 ^ n\<bar> = 1 / 2"
      unfolding d using p by (simp add: field_simps)
    then show ?thesis unfolding j_def by (rule round_half_even_tie)
  qed
  from a b c show ?thesis by blast
qed

subsection \<open>The loop\<close>

text \<open>
  No branch of the loop matches the OVER state, and none leaves it: once the loop turns in
  that state, \<open>_load\<close> does not return.
\<close>

lemma load_loop_over_diverges:
  assumes "state s = ST_OVER"
  shows "load_loop s = None"
proof -
  have "state t \<noteq> ST_OVER" if h: "load_loop t = Some y" for t y
    by (rule load_loop.raw_induct[where P = "\<lambda>t y. state t \<noteq> ST_OVER", OF _ h])
       (auto simp: load_turn_def split: fstate.splits)
  with assms show ?thesis by (cases "load_loop s") auto
qed

text \<open>One unfolding of the loop, by what the turn does.\<close>

lemma load_loop_Continue: "load_turn s = Continue s' \<Longrightarrow> load_loop s = load_loop s'"
  by (subst load_loop.simps) simp

lemma load_loop_Return: "load_turn s = Return r s' \<Longrightarrow> load_loop s = Some (Inr (r, s'))"
  by (subst load_loop.simps) simp

lemma load_loop_Raise: "load_turn s = Raise e \<Longrightarrow> load_loop s = Some (Inl e)"
  by (subst load_loop.simps) simp

subsection \<open>What a turn leaves alone\<close>

text \<open>
  A builder that rejects its message returns the feed as it was; one that accepts it writes
  a finite datetime that is not below or equal to the datetime of index -1.  A turn that
  continues never touches the line buffer.
\<close>

lemma load_tick_False: "load_tick s d = Inr (False, s') \<Longrightarrow> s' = s"
  by (auto simp: load_tick_def Let_def split: list.splits if_splits)

lemma load_candle_False: "load_candle s d = Inr (False, s') \<Longrightarrow> s' = s"
  by (auto simp: load_candle_def Let_def split: list.splits if_splits)

lemma load_tick_True:
  "load_tick s d = Inr (True, s') \<Longrightarrow>
     state s' = state s \<and> hist s' = hist s \<and>
     (\<exists>x. l_datetime (cur s') = Fin x \<and> \<not> fle (Fin x) (lines_datetime_m1 s))"
  by (auto simp: load_tick_def Let_def split: list.splits if_splits)

lemma load_candle_True:
  "load_candle s d = Inr (True, s') \<Longrightarrow>
     state s' = state s \<and> hist s' = hist s \<and>
     (\<exists>x. l_datetime (cur s') = Fin x \<and> \<not> fle (Fin x) (lines_datetime_m1 s))"
  by (auto simp: load_candle_def Let_def split: list.splits if_splits)

lemma built_Continue: "built r = Continue s' \<Longrightarrow> r = Inr (False, s')"
  by (auto simp: built_def split: sum.splits prod.splits if_splits)

lemma built_Return: "built r = Return v s' \<Longrightarrow> v = PyTrue \<and> r = Inr (True, s')"
  by (auto simp: built_def split: sum.splits prod.splits if_splits)

lemma st_start_lines: "hist (st_start s) = hist s \<and> cur (st_start s) = cur s"
  by (simp add: st_start_def Let_def put_notification_def)

lemma live_msg_turn_Continue:
  "live_msg_turn s m = Continue s' \<Longrightarrow> hist s' = hist s \<and> cur s' = cur s"
  by (auto simp: live_msg_turn_def Let_def put_notification_def st_start_lines
        split: option.splits if_splits dest!: built_Continue load_tick_False load_candle_False)

lemma live_msg_turn_Return:
  "live_msg_turn s m = Return v s' \<Longrightarrow>
     v = PyTrue \<and> state s' = state s \<and> hist s' = hist s \<and>
     (\<exists>x. l_datetime (cur s') = Fin x \<and> \<not> fle (Fin x) (lines_datetime_m1 s))"
  by (auto simp: live_msg_turn_def Let_def
        split: option.splits if_splits dest!: built_Return load_tick_True load_candle_True)

lemma dtm1_qlive [simp]: "lines_datetime_m1 (s\<lparr>qlive := q\<rparr>) = lines_datetime_m1 s"
  by (simp add: lines_datetime_m1_def)

lemma dtm1_qhist [simp]:
  "lines_datetime_m1 (s\<lparr>qhist := q, historyback_queue_size := n\<rparr>) = lines_datetime_m1 s"
  by (simp add: lines_datetime_m1_def)

lemma live_turn_Continue:
  "live_turn s = Continue s' \<Longrightarrow> hist s' = hist s \<and> cur s' = cur s"
  by (auto simp: live_turn_def split: list.splits if_splits dest!: live_msg_turn_Continue)

lemma live_turn_Return_True:
  "live_turn s = Return PyTrue s' \<Longrightarrow>
     state s' = state s \<and> hist s' = hist s \<and>
     (\<exists>x. l_datetime (cur s') = Fin x \<and> \<not> fle (Fin x) (lines_datetime_m1 s))"
  by (auto simp: live_turn_def split: list.splits if_splits dest!: live_msg_turn_Return)

lemma historback_turn_Continue:
  "historback_turn s = Continue s' \<Longrightarrow> hist s' = hist s \<and> cur s' = cur s"
  by (auto simp: historback_turn_def Let_def go_live_def put_notification_def
        split: list.splits option.splits sum.splits prod.splits if_splits
        dest!: built_Continue load_tick_False load_candle_False)

lemma historback_turn_Return_True:
  "historback_turn s = Return PyTrue s' \<Longrightarrow>
     state s' = state s \<and> hist s' = hist s \<and>
     (\<exists>x. l_datetime (cur s') = Fin x \<and> \<not> fle (Fin x) (lines_datetime_m1 s))"
  by (auto simp: historback_turn_def Let_def go_live_def
        split: list.splits option.splits sum.splits prod.splits if_splits
        dest!: built_Return load_tick_True load_candle_True)

lemma from_turn_Continue:
  "from_turn s = Continue s' \<Longrightarrow> hist s' = hist s \<and> cur s' = cur s"
  by (auto simp: from_turn_def split: list.splits option.splits)

lemma from_turn_Return: "from_turn s = Return v s' \<Longrightarrow> state s' = state s"
  by (auto simp: from_turn_def split: list.splits option.splits)

lemma load_turn_Continue:
  "load_turn s = Continue s' \<Longrightarrow> hist s' = hist s \<and> cur s' = cur s"
  by (auto simp: load_turn_def st_start_lines split: fstate.splits
        dest: live_turn_Continue historback_turn_Continue from_turn_Continue)

lemma load_turn_Return_True:
  "load_turn s = Return PyTrue s' \<Longrightarrow> state s' \<noteq> ST_FROM \<Longrightarrow>
     hist s' = hist s \<and>
     (\<exists>x. l_datetime (cur s') = Fin x \<and> \<not> fle (Fin x) (lines_datetime_m1 s))"
  by (auto simp: load_turn_def split: fstate.splits
        dest: live_turn_Return_True historback_turn_Return_True from_turn_Return)

lemma load_loop_True:
  assumes h: "load_loop s = Some r"
  shows "r = Inr (PyTrue, s') \<longrightarrow> state s' \<noteq> ST_FROM \<longrightarrow>
     hist s' = hist s \<and>
     (\<exists>x. l_datetime (cur s') = Fin x \<and> \<not> fle (Fin x) (lines_datetime_m1 s))"
proof (rule load_loop.raw_induct[where P = "\<lambda>s r. r = Inr (PyTrue, s') \<longrightarrow> state s' \<noteq> ST_FROM \<longrightarrow>
     hist s' = hist s \<and>
     (\<exists>x. l_datetime (cur s') = Fin x \<and> \<not> fle (Fin x) (lines_datetime_m1 s))", OF _ h])
  fix f t y
  assume IH: "\<And>x y. f x = Some y \<Longrightarrow> y = Inr (PyTrue, s') \<longrightarrow> state s' \<noteq> ST_FROM \<longrightarrow>
     hist s' = hist x \<and>
     (\<exists>z. l_datetime (cur s') = Fin z \<and> \<not> fle (Fin z) (lines_datetime_m1 x))"
    and eq: "(case load_turn t of Continue s' \<Rightarrow> f s'
      | Return r s' \<Rightarrow> Some (Inr (r, s')) | Raise e \<Rightarrow> Some (Inl e) | Wait \<Rightarrow> None) = Some y"
  show "y = Inr (PyTrue, s') \<longrightarrow> state s' \<noteq> ST_FROM \<longrightarrow>
     hist s' = hist t \<and>
     (\<exists>x. l_datetime (cur s') = Fin x \<and> \<not> fle (Fin x) (lines_datetime_m1 t))"
  proof (cases "load_turn t")
    case (Continue t')
    with eq have "f t' = Some y" by simp
    moreover from load_turn_Continue[OF Continue]
    have "hist t' = hist t" "lines_datetime_m1 t' = lines_datetime_m1 t"
      by (simp_all add: lines_datetime_m1_def)
    ultimately show ?thesis using IH[of t' y] by simp
  next
    case (Return v t')
    with eq have "y = Inr (v, t')" by simp
    with Return load_turn_Return_True[of t s'] show ?thesis by auto
  next
    case (Raise e)
    with eq show ?thesis by auto
  next
    case Wait
    with eq show ?thesis by simp
  qed
qed

subsection \<open>Entering the loop\<close>

lemma py_int_of_int: "py_int (of_int k) = k"
  by (simp add: py_int_def)

lemma load_live: "state s = ST_LIVE \<Longrightarrow> haslivedata s \<Longrightarrow> load s = load_loop s"
  by (simp add: load_def)

lemma haslivedata_DATA_SUB:
  "subscribe s = Some ''DATA'' \<or> subscribe s = Some ''SUB'' \<Longrightarrow> haslivedata s"
  by (auto simp: haslivedata_def qlive_bound_def)

subsection \<open>A feed without subscription never touches the live channel\<close>

lemma load_tick_frame:
  "load_tick s d = Inr (ok, s') \<Longrightarrow> subscribe s' = subscribe s \<and> qlive s' = qlive s"
  by (auto simp: load_tick_def Let_def split: list.splits if_splits)

lemma load_candle_frame:
  "load_candle s d = Inr (ok, s') \<Longrightarrow> subscribe s' = subscribe s \<and> qlive s' = qlive s"
  by (auto simp: load_candle_def Let_def split: list.splits if_splits)

lemma st_start_frame: "subscribe (st_start s) = subscribe s \<and> qlive (st_start s) = qlive s"
  by (simp add: st_start_def Let_def put_notification_def)

lemma historback_turn_frame:
  "historback_turn s = Continue s' \<or> historback_turn s = Return v s' \<Longrightarrow>
     subscribe s' = subscribe s \<and> qlive s' = qlive s"
  by (auto simp: historback_turn_def Let_def go_live_def put_notification_def built_def
        split: list.splits option.splits sum.splits prod.splits if_splits
        dest!: load_tick_frame load_candle_frame)

lemma from_turn_frame:
  "from_turn s = Continue s' \<or> from_turn s = Return v s' \<Longrightarrow>
     subscribe s' = subscribe s \<and> qlive s' = qlive s"
  by (auto simp: from_turn_def split: list.splits option.splits)

lemma live_turn_None:
  "subscribe s = None \<Longrightarrow> live_turn s = Continue s"
  by (simp add: live_turn_def)

lemma load_turn_None_frame:
  assumes "subscribe s = None"
    and "load_turn s = Continue s' \<or> load_turn s = Return v s'"
  shows "subscribe s' = None \<and> qlive s' = qlive s"
proof (cases "state s")
  case ST_LIVE
  with assms show ?thesis by (auto simp: load_turn_def live_turn_None)
next
  case ST_HISTORBACK
  with assms historback_turn_frame[of s s' v] show ?thesis by (auto simp: load_turn_def)
next
  case ST_FROM
  with assms from_turn_frame[of s s' v] show ?thesis by (auto simp: load_turn_def)
next
  case ST_START
  with assms show ?thesis by (auto simp: load_turn_def st_start_frame)
next
  case ST_OVER
  with assms show ?thesis by (auto simp: load_turn_def)
qed

lemma load_loop_None_frame:
  assumes h: "load_loop s = Some y"
  shows "subscribe s = None \<longrightarrow> y = Inr (r, s') \<longrightarrow> qlive s' = qlive s"
proof (rule load_loop.raw_induct
    [where P = "\<lambda>s y. subscribe s = None \<longrightarrow> y = Inr (r, s') \<longrightarrow> qlive s' = qlive s", OF _ h])
  fix f t y
  assume IH: "\<And>x y. f x = Some y \<Longrightarrow>
      subscribe x = None \<longrightarrow> y = Inr (r, s') \<longrightarrow> qlive s' = qlive x"
    and eq: "(case load_turn t of Continue s' \<Rightarrow> f s'
      | Return r s' \<Rightarrow> Some (Inr (r, s')) | Raise e \<Rightarrow> Some (Inl e) | Wait \<Rightarrow> None) = Some y"
  show "subscribe t = None \<longrightarrow> y = Inr (r, s') \<longrightarrow> qlive s' = qlive t"
  proof (cases "load_turn t")
    case (Continue t')
    with eq have "f t' = Some y" by simp
    with IH[of t' y] load_turn_None_frame[of t t'] Continue show ?thesis by auto
  next
    case (Return v t')
    with eq have "y = Inr (v, t')" by simp
    with Return load_turn_None_frame[of t t' v] show ?thesis by auto
  next
    case (Raise e)
    with eq show ?thesis by auto
  next
    case Wait
    with eq show ?thesis by simp
  qed
qed

text \<open>
  Inside the loop the LIVE state does not look at \<open>haslivedata\<close>: without subscription
  \<open>msg\<close> is \<open>None\<close> at every turn, so the poll that takes the feed from HISTORBACK to
  LIVE does not return.
\<close>

lemma none_subscription_live_loop_diverges:
  assumes "subscribe s = None" and "state s = ST_LIVE"
  shows "load_loop s = None"
proof -
  have "\<not> (subscribe t = None \<and> state t = ST_LIVE)" if h: "load_loop t = Some y" for t y
  proof (rule load_loop.raw_induct
      [where P = "\<lambda>t y. \<not> (subscribe t = None \<and> state t = ST_LIVE)", OF _ h])
    fix f t y
    assume IH: "\<And>x y. f x = Some y \<Longrightarrow> \<not> (subscribe x = None \<and> state x = ST_LIVE)"
      and eq: "(case load_turn t of Continue s' \<Rightarrow> f s'
        | Return r s' \<Rightarrow> Some (Inr (r, s')) | Raise e \<Rightarrow> Some (Inl e) | Wait \<Rightarrow> None) = Some y"
    show "\<not> (subscribe t = None \<and> state t = ST_LIVE)"
    proof
      assume a: "subscribe t = None \<and> state t = ST_LIVE"
      then have "load_turn t = Continue t" by (simp add: load_turn_def live_turn_None)
      with eq have "f t = Some y" by simp
      from IH[OF this] a show False by simp
    qed
  qed
  with assms have "load_loop s \<noteq> Some y" for y by blast
  then show ?thesis by (cases "load_loop s") auto
qed

lemma none_subscription_end_of_history_diverges:
  assumes "subscribe s = None" and "state s = ST_HISTORBACK" and "qhist s = Some [] # ms"
    and "\<not> p_historical s"
  shows "load s = None"
proof -
  let ?s = "s\<lparr>qhist := ms, historyback_queue_size := length ms, state := ST_LIVE,
              notifs := notifs s @ [LIVE]\<rparr>"
  have "load_turn s = Continue ?s"
    using assms
    by (simp add: load_turn_def historback_turn_def Let_def put_notification_def go_live_def)
  then have "load_loop s = load_loop ?s" by (rule load_loop_Continue)
  moreover have "load_loop ?s = None"
    using assms(1) by (intro none_subscription_live_loop_diverges) simp_all
  moreover have "load s = load_loop s" using assms(2) by (simp add: load_def)
  ultimately show ?thesis by simp
qed

subsection \<open>Receiving a live message\<close>

lemma load_over: "state t = ST_OVER \<Longrightarrow> load t = Some (Inr (PyFalse, t))"
  by (simp add: load_def)

lemma live_turn_receive:
  assumes "subscribe s = Some ''DATA'' \<or> subscribe s = Some ''SUB''"
    and "qlive s = m # ms" and "status m = Some st"
  shows "live_turn s = live_msg_turn (s\<lparr>qlive := ms\<rparr>) m"
  using assms by (auto simp: live_turn_def msg_truthy_def)

lemma live_msg_turn_data:
  assumes "status m = Some st" and "st \<noteq> ''DISCONNECTED''"
    and "\<not> (st = ''CONNECTED'' \<and> statelivereconn s)"
    and "timeframe m = Some tf"
  shows "live_msg_turn s m =
     (if tf \<noteq> granularity s then Continue s
      else case symbol m of
             None \<Rightarrow> Raise (KeyError ''symbol'')
           | Some smb \<Rightarrow>
               if smb \<noteq> p_dataname s then Continue s
               else (case data m of
                       None \<Rightarrow> Raise (KeyError ''data'')
                     | Some d \<Rightarrow>
                         if tf = ''TICK'' then built (load_tick s d)
                         else built (load_candle s d)))"
  using assms by (auto simp: live_msg_turn_def)

lemma stale_tick_rejected:
  "fle (Fin (ts2num s (t / 1000))) (lines_datetime_m1 s) \<Longrightarrow>
     built (load_tick s [t, bid, ask]) = Continue s"
  by (simp add: load_tick_def built_def)

lemma stale_candle_rejected:
  "fle (Fin (ts2num s t)) (lines_datetime_m1 s) \<Longrightarrow>
     built (load_candle s [t, opn, hgh, lw, cls, vol, spread]) = Continue s"
  by (simp add: load_candle_def built_def)

text \<open>
  The two cases of a live message that is dropped: it does not match the feed, or it
  matches and is stale.
\<close>

lemma mismatched_or_stale_live_message_dropped:
  assumes "state s = ST_LIVE"
    and "subscribe s = Some ''DATA'' \<or> subscribe s = Some ''SUB''"
    and "qlive s = m # ms"
    and "status m = Some st" and "st \<noteq> ''DISCONNECTED''"
    and "\<not> (st = ''CONNECTED'' \<and> statelivereconn s)"
    and "timeframe m = Some tf"
    and "tf \<noteq> granularity s
       \<or> (\<exists>smb. symbol m = Some smb \<and> smb \<noteq> p_dataname s)
       \<or> (symbol m = Some (p_dataname s) \<and> tf = ''TICK'' \<and>
           (\<exists>t bid ask. data m = Some [t, bid, ask] \<and>
              fle (Fin (ts2num s (t / 1000))) (lines_datetime_m1 s)))
       \<or> (symbol m = Some (p_dataname s) \<and> tf \<noteq> ''TICK'' \<and>
           (\<exists>t opn hgh lw cls vol spread. data m = Some [t, opn, hgh, lw, cls, vol, spread] \<and>
              fle (Fin (ts2num s t)) (lines_datetime_m1 s)))"
  shows "load_turn s = Continue (s\<lparr>qlive := ms\<rparr>) \<and> load s = load_loop (s\<lparr>qlive := ms\<rparr>)"
proof -
  let ?s = "s\<lparr>qlive := ms\<rparr>"
  have flag: "\<not> (st = ''CONNECTED'' \<and> statelivereconn ?s)"
    using assms(6) by simp
  note msg = live_msg_turn_data[OF assms(4,5) flag assms(7)]
  from assms(8) have "live_msg_turn ?s m = Continue ?s"
  proof (elim disjE conjE exE)
    assume "tf \<noteq> granularity s"
    then show ?thesis by (simp add: msg)
  next
    fix smb assume "symbol m = Some smb" "smb \<noteq> p_dataname s"
    then show ?thesis by (simp add: msg)
  next
    fix t bid ask
    assume "symbol m = Some (p_dataname s)" "tf = ''TICK''" "data m = Some [t, bid, ask]"
      "fle (Fin (ts2num s (t / 1000))) (lines_datetime_m1 s)"
    then show ?thesis
      using stale_tick_rejected[of ?s t bid ask] by (simp add: msg)
  next
    fix t opn hgh lw cls vol spread
    assume "symbol m = Some (p_dataname s)" "tf \<noteq> ''TICK''"
      "data m = Some [t, opn, hgh, lw, cls, vol, spread]"
      "fle (Fin (ts2num s t)) (lines_datetime_m1 s)"
    then show ?thesis
      using stale_candle_rejected[of ?s t opn hgh lw cls vol spread] by (simp add: msg)
  qed
  with assms(1) live_turn_receive[OF assms(2,3,4)]
  have turn: "load_turn s = Continue ?s"
    by (simp add: load_turn_def)
  have "load s = load_loop s"
    using assms(1,2) by (simp add: load_live haslivedata_DATA_SUB)
  with turn show ?thesis by (simp add: load_loop_Continue)
qed

text \<open>
  A message that has the key \<open>status\<close> with CONNECTED and no \<open>timeframe\<close>, the flag being
  clear: the lookup of \<open>timeframe\<close> raises.
\<close>

lemma connected_status_only_raises:
  assumes "state s = ST_LIVE"
    and "subscribe s = Some ''DATA'' \<or> subscribe s = Some ''SUB''"
    and "qlive s = m # ms"
    and "status m = Some ''CONNECTED''" and "timeframe m = None"
    and "\<not> statelivereconn s"
  shows "load s = Some (Inl (KeyError ''timeframe''))"
proof -
  have "live_msg_turn (s\<lparr>qlive := ms\<rparr>) m = Raise (KeyError ''timeframe'')"
    using assms(4,5,6) by (simp add: live_msg_turn_def)
  with assms(1) live_turn_receive[OF assms(2,3,4)]
  have "load_turn s = Raise (KeyError ''timeframe'')"
    by (simp add: load_turn_def)
  then have "load_loop s = Some (Inl (KeyError ''timeframe''))" by (rule load_loop_Raise)
  with assms(1,2) show ?thesis by (simp add: load_live haslivedata_DATA_SUB)
qed

text \<open>
  With 'DATA' and nothing in the queue, \<open>get()\<close> waits: the poll does not return.
\<close>

lemma data_get_on_empty_queue_waits:
  assumes "state s = ST_LIVE" and "subscribe s = Some ''DATA''" and "qlive s = []"
  shows "load s = None"
proof -
  from assms have "load_turn s = Wait" by (simp add: load_turn_def live_turn_def)
  then have "load_loop s = None" by (subst load_loop.simps) simp
  with assms(1,2) show ?thesis by (simp add: load_live haslivedata_DATA_SUB)
qed

text \<open>
  The test before the loop: a poll that starts in the LIVE state without subscription
  returns \<open>False\<close> at once.
\<close>

lemma live_guard_without_subscription:
  assumes "subscribe s = None" and "state s = ST_LIVE"
  shows "load s = Some (Inr (PyFalse, s))"
  using assms by (simp add: haslivedata_def load_def)

text \<open>
  A DISCONNECTED message with \<open>backfill\<close> disabled moves the feed to OVER and continues
  the loop, which then turns for ever.
\<close>

lemma disconnected_without_backfill_turn:
  assumes "state s = ST_LIVE"
    and "subscribe s = Some ''DATA'' \<or> subscribe s = Some ''SUB''"
    and "qlive s = m # ms"
    and "status m = Some ''DISCONNECTED''"
    and "\<not> p_backfill s"
  shows "load_turn s = Continue (s\<lparr>qlive := ms, notifs := notifs s @ [DISCONNECTED],
           state := ST_OVER, statelivereconn := True\<rparr>)"
  using assms
  by (auto simp: load_turn_def live_turn_def msg_truthy_def live_msg_turn_def Let_def
        put_notification_def)

lemma disconnected_without_backfill_diverges:
  assumes "state s = ST_LIVE"
    and "subscribe s = Some ''DATA'' \<or> subscribe s = Some ''SUB''"
    and "qlive s = m # ms"
    and "status m = Some ''DISCONNECTED''"
    and "\<not> p_backfill s"
  shows "load s = None"
proof -
  have "load s = load_loop s"
    using assms(1,2) by (simp add: load_live haslivedata_DATA_SUB)
  also have "\<dots> = load_loop (s\<lparr>qlive := ms, notifs := notifs s @ [DISCONNECTED],
           state := ST_OVER, statelivereconn := True\<rparr>)"
    by (rule load_loop_Continue[OF disconnected_without_backfill_turn[OF assms]])
  also have "\<dots> = None"
    by (rule load_loop_over_diverges) simp
  finally show ?thesis .
qed

section \<open>The properties of the specification\<close>

subsection \<open>Bar construction\<close>

text \<open>
  C8.  A candle built with \<open>addspread\<close> enabled: each of open, high, low and close is
  \<open>round(price + spread * 0.001, 3)\<close> when the name of the instrument ends in JPY and
  \<open>round(price + spread * 0.00001, 5)\<close> otherwise, in the arithmetic of doubles (the spread
  is a whole number of points).  What \<open>round\<close> gives is pinned down: the double nearest to
  the number with 3 (or 5) decimals that is nearest to the sum, the even one at a tie.
  The instances after it hold the two examples of the specification, EURUSD with open
  1.10000 and spread 20 giving 1.10020 and USDJPY with open 110.000 and spread 20 giving
  110.020, and one where the sum is not yet rounded: USDJPY with open 110.123 and spread 7,
  whose sum 110.13000000000001 becomes 110.13.
\<close>

theorem candle_spread_adjustment:
  fixes s :: feed and k :: int
  defines "n \<equiv> (if endswith (p_dataname s) ''JPY'' then 3 else 5 :: nat)"
  defines "summed \<equiv>
    (\<lambda>price. fadd (py_float price) (fmul (py_float (of_int k)) (py_float (1 / 10 ^ n))))"
  assumes "p_addspread s" and "\<not> fle (Fin (ts2num s t)) (lines_datetime_m1 s)"
  shows "(\<exists>s'. load_candle s [t, opn, hgh, lw, cls, vol, of_int k] = Inr (True, s') \<and>
       [l_open (cur s'), l_high (cur s'), l_low (cur s'), l_close (cur s')] =
         map (\<lambda>price. Fin (py_round (summed price) n)) [opn, hgh, lw, cls])
     \<and> (\<forall>price. \<exists>j. py_round (summed price) n = py_float (of_int j / 10 ^ n)
           \<and> \<bar>of_int j / 10 ^ n - summed price\<bar> \<le> 1 / (2 * 10 ^ n)
           \<and> (\<bar>of_int j / 10 ^ n - summed price\<bar> = 1 / (2 * 10 ^ n) \<longrightarrow> even j))"
proof
  show "\<exists>s'. load_candle s [t, opn, hgh, lw, cls, vol, of_int k] = Inr (True, s') \<and>
       [l_open (cur s'), l_high (cur s'), l_low (cur s'), l_close (cur s')] =
         map (\<lambda>price. Fin (py_round (summed price) n)) [opn, hgh, lw, cls]"
    using assms(3,4) unfolding n_def summed_def
    by (simp add: load_candle_def addspread_def py_int_of_int py_sum_def fadd_zero_float)
  show "\<forall>price. \<exists>j. py_round (summed price) n = py_float (of_int j / 10 ^ n)
           \<and> \<bar>of_int j / 10 ^ n - summed price\<bar> \<le> 1 / (2 * 10 ^ n)
           \<and> (\<bar>of_int j / 10 ^ n - summed price\<bar> = 1 / (2 * 10 ^ n) \<longrightarrow> even j)"
    by (intro allI py_round_nearest)
qed

theorem candle_spread_adjustment_witness:
  "(\<exists>s'. load_candle (eurusd_feed\<lparr>p_addspread := True\<rparr>)
          [60, 11 / 10, 11 / 10, 11 / 10, 11 / 10, 5, 20] = Inr (True, s')
        \<and> l_open (cur s') = Fin (py_float (11002 / 10000)))
   \<and> (\<exists>s'. load_candle (eurusd_feed\<lparr>p_addspread := True, p_dataname := ''USDJPY''\<rparr>)
          [60, 110, 110, 110, 110, 5, 20] = Inr (True, s')
        \<and> l_open (cur s') = Fin (py_float (11002 / 100)))
   \<and> (\<exists>s'. load_candle (eurusd_feed\<lparr>p_addspread := True, p_dataname := ''USDJPY''\<rparr>)
          [60, 110123 / 1000, 110123 / 1000, 110123 / 1000, 110123 / 1000, 5, 7] = Inr (True, s')
        \<and> l_open (cur s') = Fin (py_float (11013 / 100)))
   \<and> fadd (py_float (110123 / 1000)) (fmul (py_float 7) (py_float (1 / 1000)))
        \<noteq> py_float (11013 / 100)"
proof -
  let ?E = "eurusd_feed\<lparr>p_addspread := True\<rparr>"
  let ?J = "eurusd_feed\<lparr>p_addspread := True, p_dataname := ''USDJPY''\<rparr>"
  have aE: "p_addspread ?E" and aJ: "p_addspread ?J"
    by (simp_all add: eurusd_feed_def)
  have bE: "\<not> fle (Fin (ts2num ?E 60)) (lines_datetime_m1 ?E)"
    and bJ: "\<not> fle (Fin (ts2num ?J 60)) (lines_datetime_m1 ?J)"
    by (simp_all add: eurusd_feed_def lines_datetime_m1_def nan_bar_def)
  have nE: "\<not> endswith (p_dataname ?E) ''JPY''" and nJ: "endswith (p_dataname ?J) ''JPY''"
    by (simp_all add: eurusd_feed_def endswith_def)
  have v1: "py_round (fadd (py_float (11 / 10)) (fmul (py_float 20) (py_float (1 / 10 ^ 5)))) 5
      = py_float (11002 / 10000)"
    by code_simp
  have v2: "py_round (fadd (py_float 110) (fmul (py_float 20) (py_float (1 / 10 ^ 3)))) 3
      = py_float (11002 / 100)"
    by code_simp
  have v3: "py_round (fadd (py_float (110123 / 1000)) (fmul (py_float 7) (py_float (1 / 10 ^ 3)))) 3
      = py_float (11013 / 100)"
    by code_simp
  have v4: "fadd (py_float (110123 / 1000)) (fmul (py_float 7) (py_float (1 / 1000)))
      \<noteq> py_float (11013 / 100)"
    by code_simp
  from candle_spread_adjustment
    [where s = ?E and k = 20 and t = 60 and opn = "11 / 10" and hgh = "11 / 10"
       and lw = "11 / 10" and cls = "11 / 10" and vol = 5, OF aE bE, THEN conjunct1]
  have w1: "\<exists>s'. load_candle ?E [60, 11 / 10, 11 / 10, 11 / 10, 11 / 10, 5, 20] = Inr (True, s')
        \<and> l_open (cur s') = Fin (py_float (11002 / 10000))"
    using nE v1 by auto
  from candle_spread_adjustment
    [where s = ?J and k = 20 and t = 60 and opn = 110 and hgh = 110
       and lw = 110 and cls = 110 and vol = 5, OF aJ bJ, THEN conjunct1]
  have w2: "\<exists>s'. load_candle ?J [60, 110, 110, 110, 110, 5, 20] = Inr (True, s')
        \<and> l_open (cur s') = Fin (py_float (11002 / 100))"
    using nJ v2 by auto
  from candle_spread_adjustment
    [where s = ?J and k = 7 and t = 60 and opn = "110123 / 1000" and hgh = "110123 / 1000"
       and lw = "110123 / 1000" and cls = "110123 / 1000" and vol = 5, OF aJ bJ, THEN conjunct1]
  have w3: "\<exists>s'. load_candle ?J
          [60, 110123 / 1000, 110123 / 1000, 110123 / 1000, 110123 / 1000, 5, 7] = Inr (True, s')
        \<and> l_open (cur s') = Fin (py_float (11013 / 100))"
    using nJ v3 by auto
  from w1 w2 w3 v4 show ?thesis by blast
qed

text \<open>
  C9.  A tick or a candle whose converted timestamp is below or equal to the datetime of
  the last delivered bar is rejected with \<open>False\<close> and the feed (every line) is as it
  was; and whenever a builder answers \<open>False\<close> the feed is as it was.
\<close>

theorem stale_message_writes_nothing:
  "(fle (Fin (ts2num s (t / 1000))) (lines_datetime_m1 s) \<longrightarrow>
      load_tick s [t, bid, ask] = Inr (False, s))
   \<and> (fle (Fin (ts2num s t)) (lines_datetime_m1 s) \<longrightarrow>
      load_candle s [t, opn, hgh, lw, cls, vol, spread] = Inr (False, s))
   \<and> (load_tick s d = Inr (False, s') \<longrightarrow> s' = s)
   \<and> (load_candle s d = Inr (False, s') \<longrightarrow> s' = s)"
  using load_tick_False[of s d s'] load_candle_False[of s d s']
  by (simp add: load_tick_def load_candle_def)

theorem stale_message_writes_nothing_witness:
  "fle (Fin (epoch_days (86400000 / 1000))) (lines_datetime_m1 (eurusd_feed\<lparr>hist := [flat_bar 719164 1]\<rparr>))
   \<and> load_tick (eurusd_feed\<lparr>hist := [flat_bar 719164 1]\<rparr>) [86400000, 11 / 10, 11002 / 10000]
       = Inr (False, eurusd_feed\<lparr>hist := [flat_bar 719164 1]\<rparr>)
   \<and> fle (Fin (epoch_days 43200)) (lines_datetime_m1 (eurusd_feed\<lparr>hist := [flat_bar 719164 1]\<rparr>))
   \<and> load_candle (eurusd_feed\<lparr>hist := [flat_bar 719164 1]\<rparr>) [43200, 1, 2, 1, 2, 7, 20]
       = Inr (False, eurusd_feed\<lparr>hist := [flat_bar 719164 1]\<rparr>)"
  using stale_message_writes_nothing
    [of "eurusd_feed\<lparr>hist := [flat_bar 719164 1]\<rparr>" 86400000 "11 / 10" "11002 / 10000"]
    stale_message_writes_nothing
    [of "eurusd_feed\<lparr>hist := [flat_bar 719164 1]\<rparr>" 43200 _ _ 1 2 1 2 7 20]
  by (simp add: eurusd_feed_def lines_datetime_m1_def flat_bar_def epoch_days_def)

subsection \<open>The subscription mode \<open>None\<close>\<close>

text \<open>
  C10.  The specification: with \<open>subscribe = None\<close>, once the feed has reached the LIVE
  state every poll returns \<open>False\<close> at once.  The test that would do so stands before the
  loop, and the feed reaches LIVE inside the loop: the poll that takes the end of the
  historical data goes to LIVE, puts the notification and continues, and from then on
  \<open>msg\<close> is \<open>None\<close> at every turn.  That poll never returns, so no later poll is made.
  Evaluated on a feed without subscription whose historical queue holds the end of the
  data.
\<close>

theorem none_subscription_poll_never_returns:
  "load_turn (eurusd_feed\<lparr>subscribe := None, state := ST_HISTORBACK, qhist := [Some []]\<rparr>)
     = Continue (eurusd_feed\<lparr>subscribe := None, state := ST_LIVE, qhist := [],
         notifs := [LIVE]\<rparr>)
   \<and> load (eurusd_feed\<lparr>subscribe := None, state := ST_HISTORBACK, qhist := [Some []]\<rparr>)
     = None"
proof
  show "load_turn (eurusd_feed\<lparr>subscribe := None, state := ST_HISTORBACK, qhist := [Some []]\<rparr>)
     = Continue (eurusd_feed\<lparr>subscribe := None, state := ST_LIVE, qhist := [],
         notifs := [LIVE]\<rparr>)"
    by (simp add: eurusd_feed_def load_turn_def historback_turn_def Let_def go_live_def
          put_notification_def)
  show "load (eurusd_feed\<lparr>subscribe := None, state := ST_HISTORBACK, qhist := [Some []]\<rparr>)
     = None"
    by (rule none_subscription_end_of_history_diverges[where ms = "[]"])
       (simp_all add: eurusd_feed_def)
qed

subsection \<open>The LIVE state\<close>

text \<open>
  C1.  The specification: a poll in the LIVE state that receives DISCONNECTED with \<open>backfill\<close>
  disabled puts the DISCONNECTED notification, goes to OVER and returns \<open>False\<close>.  The
  code puts the notification and goes to OVER, but then continues the loop instead of
  returning: the poll never returns.  Evaluated on a feed with \<open>backfill = False\<close> whose
  queue holds one DISCONNECTED message.
\<close>

theorem disconnected_without_backfill_never_returns:
  "load_turn (eurusd_feed\<lparr>p_backfill := False, qlive := [status_msg ''DISCONNECTED'']\<rparr>)
     = Continue (eurusd_feed\<lparr>p_backfill := False, qlive := [], notifs := [DISCONNECTED],
         state := ST_OVER, statelivereconn := True\<rparr>)
   \<and> load (eurusd_feed\<lparr>p_backfill := False, qlive := [status_msg ''DISCONNECTED'']\<rparr>) = None"
proof
  show "load_turn (eurusd_feed\<lparr>p_backfill := False, qlive := [status_msg ''DISCONNECTED'']\<rparr>)
     = Continue (eurusd_feed\<lparr>p_backfill := False, qlive := [], notifs := [DISCONNECTED],
         state := ST_OVER, statelivereconn := True\<rparr>)"
    by (simp add: eurusd_feed_def status_msg_def load_turn_def live_turn_def msg_truthy_def
          live_msg_turn_def Let_def put_notification_def)
  show "load (eurusd_feed\<lparr>p_backfill := False, qlive := [status_msg ''DISCONNECTED'']\<rparr>) = None"
    by (rule disconnected_without_backfill_diverges[where m = "status_msg ''DISCONNECTED''" and ms = "[]"])
       (simp_all add: eurusd_feed_def status_msg_def)
qed



text \<open>
  C6.  The specification: a live message that is mismatched, or stale, or a CONNECTED
  status event arriving while the flag is clear, is dropped, the loop polls on and no
  exception reaches the caller.  The first two are so.  A status event has no other key
  than \<open>status\<close>; CONNECTED with the flag clear passes both status tests and reaches the
  lookup of \<open>timeframe\<close>, which raises \<open>KeyError\<close> out of \<open>_load\<close>.  Evaluated on a feed
  whose queue holds one CONNECTED status event.
\<close>

theorem connected_status_event_raises:
  "load (eurusd_feed\<lparr>qlive := [status_msg ''CONNECTED'']\<rparr>)
     = Some (Inl (KeyError ''timeframe''))"
  by (rule connected_status_only_raises[where m = "status_msg ''CONNECTED''" and ms = "[]"])
     (simp_all add: eurusd_feed_def status_msg_def)

text \<open>
  C7.  The specification: a poll in the LIVE state with no live message returns \<open>None\<close> and
  changes nothing, the queue by a pop that does not block and the socket by its bounded
  timeout.  With 'SUB' no path of the LIVE state returns \<open>None\<close>: the receive that times
  out raises \<open>zmq.Again\<close>, which nothing handles.  Evaluated on a 'SUB' feed with nothing to
  receive.
\<close>

theorem sub_timeout_raises:
  "load (eurusd_feed\<lparr>subscribe := Some ''SUB''\<rparr>) = Some (Inl ZmqAgain)"
  by (simp add: load_def eurusd_feed_def haslivedata_def qlive_bound_def load_loop.simps
        load_turn_def live_turn_def)

subsection \<open>The HISTORBACK state\<close>

text \<open>
  C3.  The specification: a historical message that is not loaded because it is stale is skipped
  and the feed stays in HISTORBACK, for ticks as for candles.  For candles a \<open>continue\<close>
  does that.  For ticks (\<open>timeframe = 1\<close>) the \<open>continue\<close> is missing: the feed goes to
  LIVE and puts the LIVE notification, with historical ticks still in the queue.
  Evaluated on a tick feed and on a candle feed whose first historical message repeats
  the datetime of the last delivered bar.
\<close>

theorem stale_historical_tick_goes_live:
  "load_turn (eurusd_feed\<lparr>p_timeframe := 1, granularity := ''TICK'', state := ST_HISTORBACK,
       hist := [flat_bar 719164 1],
       qhist := [Some [86400000, 11 / 10, 11002 / 10000],
                 Some [172800000, 11 / 10, 11002 / 10000], Some []]\<rparr>)
   = Continue (eurusd_feed\<lparr>p_timeframe := 1, granularity := ''TICK'', state := ST_LIVE,
       hist := [flat_bar 719164 1],
       qhist := [Some [172800000, 11 / 10, 11002 / 10000], Some []],
       historyback_queue_size := 2, notifs := [LIVE]\<rparr>)
   \<and> load_turn (eurusd_feed\<lparr>state := ST_HISTORBACK,
       hist := [flat_bar 719164 1],
       qhist := [Some [86400, 1, 1, 1, 1, 1, 1], Some [172800, 1, 1, 1, 1, 1, 1], Some []]\<rparr>)
   = Continue (eurusd_feed\<lparr>state := ST_HISTORBACK,
       hist := [flat_bar 719164 1],
       qhist := [Some [172800, 1, 1, 1, 1, 1, 1], Some []],
       historyback_queue_size := 2\<rparr>)"
  by (simp add: eurusd_feed_def load_turn_def historback_turn_def Let_def load_tick_def
        load_candle_def built_def lines_datetime_m1_def flat_bar_def epoch_days_def go_live_def
        put_notification_def)

text \<open>
  C5.  In HISTORBACK the historical queue hands over the end of the data (a false value
  that is not \<open>None\<close>).  With \<open>historical\<close> set, the poll puts DISCONNECTED, goes to OVER
  and returns \<open>False\<close>, and every poll in the OVER state returns \<open>False\<close> and leaves the
  feed as it is.  Without it, the turn goes to LIVE and puts LIVE once, and the poll goes
  on in the LIVE state.
\<close>

theorem historical_end_of_data:
  assumes "state s = ST_HISTORBACK" and "qhist s = Some [] # ms"
  shows "(p_historical s \<longrightarrow>
        load s = Some (Inr (PyFalse, s\<lparr>qhist := ms, historyback_queue_size := length ms,
                   notifs := notifs s @ [DISCONNECTED], state := ST_OVER\<rparr>)))
     \<and> (\<forall>t. state t = ST_OVER \<longrightarrow> load t = Some (Inr (PyFalse, t)))
     \<and> (\<not> p_historical s \<longrightarrow>
        load_turn s = Continue (s\<lparr>qhist := ms, historyback_queue_size := length ms,
                   state := ST_LIVE, notifs := notifs s @ [LIVE]\<rparr>)
        \<and> load s = load_loop (s\<lparr>qhist := ms, historyback_queue_size := length ms,
                   state := ST_LIVE, notifs := notifs s @ [LIVE]\<rparr>))"
proof -
  have a: "load s = load_loop s" using assms(1) by (simp add: load_def)
  have b: "p_historical s \<Longrightarrow> load_turn s = Return PyFalse (s\<lparr>qhist := ms,
      historyback_queue_size := length ms, notifs := notifs s @ [DISCONNECTED], state := ST_OVER\<rparr>)"
    using assms by (simp add: load_turn_def historback_turn_def Let_def put_notification_def)
  have c: "\<not> p_historical s \<Longrightarrow> load_turn s = Continue (s\<lparr>qhist := ms,
      historyback_queue_size := length ms, state := ST_LIVE, notifs := notifs s @ [LIVE]\<rparr>)"
    using assms
    by (simp add: load_turn_def historback_turn_def Let_def put_notification_def go_live_def)
  show ?thesis
    using a load_loop_Return[OF b] c load_loop_Continue[OF c] by (simp add: load_over)
qed

theorem historical_end_of_data_witness:
  "load (eurusd_feed\<lparr>p_historical := True, state := ST_HISTORBACK, qhist := [Some []]\<rparr>)
     = Some (Inr (PyFalse, eurusd_feed\<lparr>p_historical := True, state := ST_OVER, qhist := [],
          notifs := [DISCONNECTED]\<rparr>))
   \<and> load (eurusd_feed\<lparr>p_historical := True, state := ST_OVER, qhist := [],
          notifs := [DISCONNECTED]\<rparr>)
     = Some (Inr (PyFalse, eurusd_feed\<lparr>p_historical := True, state := ST_OVER, qhist := [],
          notifs := [DISCONNECTED]\<rparr>))
   \<and> load_turn (eurusd_feed\<lparr>state := ST_HISTORBACK, qhist := [Some []]\<rparr>)
     = Continue (eurusd_feed\<lparr>state := ST_LIVE, qhist := [], notifs := [LIVE]\<rparr>)"
  using historical_end_of_data
      [of "eurusd_feed\<lparr>p_historical := True, state := ST_HISTORBACK, qhist := [Some []]\<rparr>" "[]"]
    historical_end_of_data
      [of "eurusd_feed\<lparr>state := ST_HISTORBACK, qhist := [Some []]\<rparr>" "[]"]
  by (simp add: eurusd_feed_def)

subsection \<open>The order of the bars\<close>

text \<open>
  C2, as amended.  A poll that delivers a bar built from a tick or a candle (the feed is
  not in the FROM state when it returns) leaves the delivered bars as they were and
  writes a datetime strictly greater than that of the last delivered bar: a tick or a
  candle that is not newer is never delivered.
\<close>

theorem built_bar_strictly_newer:
  assumes "load s = Some (Inr (PyTrue, s'))"
    and "state s' \<noteq> ST_FROM"
    and "lines_datetime_m1 s = Fin p"
  shows "hist s' = hist s \<and> (\<exists>d. l_datetime (cur s') = Fin d \<and> p < d)"
proof -
  from assms(1) have "load_loop s = Some (Inr (PyTrue, s'))"
    by (auto simp: load_def split: if_splits)
  from load_loop_True[OF this, of s'] assms(2,3) show ?thesis
    by auto
qed

theorem built_bar_strictly_newer_witness:
  "load (eurusd_feed\<lparr>hist := [flat_bar 719163 1],
       qlive := [data_msg ''M1'' ''EURUSD'' [0, 1, 2, 1, 2, 7, 20],
                 data_msg ''M1'' ''EURUSD'' [60, 1, 2, 1, 2, 7, 20]]\<rparr>)
     = Some (Inr (PyTrue, eurusd_feed\<lparr>hist := [flat_bar 719163 1], qlive := [],
         cur := \<lparr>l_datetime = Fin (719163 + 60 / 86400),
          l_open = Fin 1, l_high = Fin 2, l_low = Fin 1, l_close = Fin 2, l_volume = Fin 7,
          l_openinterest = Fin 0\<rparr>\<rparr>))
   \<and> (719163 :: rat) < 719163 + 60 / 86400"
proof -
  let ?w = "eurusd_feed\<lparr>hist := [flat_bar 719163 1],
       qlive := [data_msg ''M1'' ''EURUSD'' [0, 1, 2, 1, 2, 7, 20],
                 data_msg ''M1'' ''EURUSD'' [60, 1, 2, 1, 2, 7, 20]]\<rparr>"
  let ?w' = "eurusd_feed\<lparr>hist := [flat_bar 719163 1], qlive := [],
         cur := \<lparr>l_datetime = Fin (719163 + 60 / 86400),
          l_open = Fin 1, l_high = Fin 2, l_low = Fin 1, l_close = Fin 2, l_volume = Fin 7,
          l_openinterest = Fin 0\<rparr>\<rparr>"
  have a: "load ?w = Some (Inr (PyTrue, ?w'))"
    by (simp add: load_def eurusd_feed_def haslivedata_def qlive_bound_def load_loop.simps
        load_turn_def live_turn_def data_msg_def msg_truthy_def live_msg_turn_def
        built_def load_candle_def lines_datetime_m1_def flat_bar_def epoch_days_def)
  have b: "state ?w' \<noteq> ST_FROM" by (simp add: eurusd_feed_def)
  have c: "lines_datetime_m1 ?w = Fin 719163"
    by (simp add: eurusd_feed_def lines_datetime_m1_def flat_bar_def)
  from built_bar_strictly_newer[OF a b c] a show ?thesis by simp
qed

text \<open>
  C2 as stated fails in the FROM state: the bar of the external feed is copied without a
  look at the last delivered bar.  Here the last bar has datetime 5 and the external feed
  supplies a bar with datetime 3, which the poll delivers.
\<close>

theorem external_bar_copied_unchecked:
  "load (eurusd_feed\<lparr>state := ST_FROM, backfill_from := Some [flat_bar 3 1],
       hist := [flat_bar 5 1]\<rparr>)
     = Some (Inr (PyTrue, eurusd_feed\<lparr>state := ST_FROM, backfill_from := Some [],
          hist := [flat_bar 5 1], cur := flat_bar 3 1\<rparr>))
   \<and> lines_datetime_m1 (eurusd_feed\<lparr>state := ST_FROM, backfill_from := Some [flat_bar 3 1],
       hist := [flat_bar 5 1]\<rparr>) = Fin 5
   \<and> l_datetime (cur (eurusd_feed\<lparr>state := ST_FROM, backfill_from := Some [],
          hist := [flat_bar 5 1], cur := flat_bar 3 1\<rparr>)) = Fin 3
   \<and> \<not> flt (Fin 5) (Fin 3)"
  by (simp add: load_def eurusd_feed_def load_loop.simps load_turn_def from_turn_def
        lines_datetime_m1_def flat_bar_def)

end
